theory Spec2Isabelle
  imports Main "HOL-Library.Char_ord" "HOL-Library.List_Lexorder"
begin

section \<open>Go values, errors and the persistence layer\<close>

text \<open>
  The trace store of \<^verbatim>\<open>server/storage\<close> keeps every trace as a
  \<^verbatim>\<open>map[string]interface{}\<close>. The dynamic values an \<^verbatim>\<open>interface{}\<close> may hold are
  modelled by \<open>gval\<close>, one constructor per Go dynamic type that the store or the JSON
  package tells apart: the nil interface, \<^verbatim>\<open>bool\<close>, \<^verbatim>\<open>int\<close>, \<^verbatim>\<open>float64\<close> (holding an
  integral value), \<^verbatim>\<open>string\<close>, \<^verbatim>\<open>[]interface{}\<close>, \<^verbatim>\<open>[]map[string]interface{}\<close>,
  \<^verbatim>\<open>map[string]interface{}\<close>, and a channel as the representative of the values JSON cannot
  encode. A Go map is an association list whose keys are strictly ascending (the canonical
  form of an unordered map with unique keys); a variable of static type
  \<^verbatim>\<open>map[string]interface{}\<close> is a \<open>gomap\<close>, where \<open>None\<close> is the nil map.
\<close>

type_synonym bytes = string

datatype gval =
    GNil
  | GBool bool
  | GInt int
  | GFloat64 int
  | GString string
  | GSlice "gval list"
  | GMapSlice "(string \<times> gval) list list"
  | GMap "(string \<times> gval) list"
  | GChan

type_synonym gomap = "(string \<times> gval) list option"

text \<open>Indexing a map, \<^verbatim>\<open>m[k]\<close>: a missing key and the nil map both give no value.\<close>

definition index :: "gomap \<Rightarrow> string \<Rightarrow> gval option" where
  "index m k = (case m of None \<Rightarrow> None | Some kvs \<Rightarrow> map_of kvs k)"

text \<open>
  Errors are values. \<open>Errorf\<close> is \<^verbatim>\<open>fmt.Errorf\<close> with a constant message, \<open>Wrapf\<close> is
  \<^verbatim>\<open>fmt.Errorf("...: %w", err)\<close>, and \<open>JsonErr\<close> is an error of \<^verbatim>\<open>encoding/json\<close>
  handed on as it is. The store has no error types of its own: the kinds of the
  specification correspond to these messages.
\<close>

datatype json_error = SyntaxError | UnmarshalTypeError | UnsupportedTypeError

datatype error = Errorf string | Wrapf string error | JsonErr json_error

text \<open>
  The two functions of \<^verbatim>\<open>encoding/json\<close> that the store calls belong to the Go standard
  library, so the store's operations take them as parameters: what is proved of the store
  holds for every encoder and decoder.
\<close>

type_synonym marshal = "gomap \<Rightarrow> json_error + bytes"
type_synonym unmarshal = "bytes \<Rightarrow> json_error + gomap"

text \<open>
  BadgerDB is an ordered key-value engine: the database is the list of its
  \<open>(key, value)\<close> pairs in ascending byte-wise key order, each key once (\<open>db_ok\<close>).
  \<open>txn_Set\<close> writes a pair, replacing the value of a key already present, \<open>txn_Get\<close> reads
  one, and an iterator with \<^verbatim>\<open>opts.Prefix\<close> yields the pairs whose key starts with the
  prefix, in key order. I/O failures and the engine's size limits are outside the model.
\<close>

type_synonym db = "(bytes \<times> bytes) list"

definition db_ok :: "db \<Rightarrow> bool" where
  "db_ok d = sorted_wrt (<) (map fst d)"

fun ordered_put :: "('k::linorder \<times> 'v) list \<Rightarrow> 'k \<Rightarrow> 'v \<Rightarrow> ('k \<times> 'v) list" where
  "ordered_put [] k v = [(k, v)]"
| "ordered_put ((k', v') # rest) k v =
     (if k < k' then (k, v) # (k', v') # rest
      else if k = k' then (k, v) # rest
      else (k', v') # ordered_put rest k v)"

definition txn_Set :: "db \<Rightarrow> bytes \<Rightarrow> bytes \<Rightarrow> db" where
  "txn_Set d k v = ordered_put d k v"

definition txn_Get :: "db \<Rightarrow> bytes \<Rightarrow> bytes option" where
  "txn_Get d k = map_of d k"

definition has_prefix :: "bytes \<Rightarrow> bytes \<Rightarrow> bool" where
  "has_prefix p k = (take (length p) k = p)"

definition iterator_items :: "bytes \<Rightarrow> db \<Rightarrow> (bytes \<times> bytes) list" where
  "iterator_items p d = filter (\<lambda>kv. has_prefix p (fst kv)) d"

section \<open>The trace store\<close>

text \<open>
  The operations of \<^verbatim>\<open>BadgerStore\<close>, from the variant of the storage package that persists
  and decodes real data (the source also carries a second variant that returns fixed mock
  traces and zero statistics; the claims are about the persistent one).
\<close>

text \<open>
  \<^verbatim>\<open>GetTraces\<close>: the loop runs over the iterator's items while \<^verbatim>\<open>count < limit\<close>;
  a record that fails to unmarshal ends the transaction with the wrapped error. Every key
  the iterator yields has the six bytes of the prefix, so \<^verbatim>\<open>key[:6]\<close> is in range.
\<close>

fun GetTraces_loop ::
  "unmarshal \<Rightarrow> int \<Rightarrow> (bytes \<times> bytes) list \<Rightarrow> gomap list \<Rightarrow> int \<Rightarrow> error + gomap list" where
  "GetTraces_loop U limit [] traces count = Inr traces"
| "GetTraces_loop U limit ((key, val) # rest) traces count =
     (if count < limit then
        (if take 6 key = ''trace:'' then
           (case U val of
              Inl e \<Rightarrow> Inl (Wrapf ''failed to unmarshal trace: '' (JsonErr e))
            | Inr trace \<Rightarrow> GetTraces_loop U limit rest (traces @ [trace]) (count + 1))
         else GetTraces_loop U limit rest traces count)
      else Inr traces)"

definition GetTraces :: "unmarshal \<Rightarrow> db \<Rightarrow> int \<Rightarrow> error + gomap list" where
  "GetTraces U d limit =
     (case GetTraces_loop U limit (iterator_items ''trace:'' d) [] 0 of
        Inl err \<Rightarrow> Inl (Wrapf ''failed to get traces: '' err)
      | Inr traces \<Rightarrow> Inr traces)"

text \<open>
  \<^verbatim>\<open>GetTrace\<close>: a missing key is the error "trace not found"; a decoding error is
  returned bare.
\<close>

definition GetTrace :: "unmarshal \<Rightarrow> db \<Rightarrow> string \<Rightarrow> error + gomap" where
  "GetTrace U d tid =
     (case txn_Get d (''trace:'' @ tid) of
        None \<Rightarrow> Inl (Errorf ''trace not found'')
      | Some val \<Rightarrow>
          (case U val of Inl e \<Rightarrow> Inl (JsonErr e) | Inr trace \<Rightarrow> Inr trace))"

text \<open>
  \<^verbatim>\<open>StoreTrace\<close> returns its error (\<open>None\<close> for nil) and the database it leaves behind.
  The type assertion \<^verbatim>\<open>trace["trace_id"].(string)\<close> succeeds exactly on a \<open>GString\<close>.
\<close>

definition StoreTrace :: "marshal \<Rightarrow> db \<Rightarrow> gomap \<Rightarrow> error option \<times> db" where
  "StoreTrace M d trace =
     (case index trace ''trace_id'' of
        Some (GString traceID) \<Rightarrow>
          (case M trace of
             Inl e \<Rightarrow> (Some (Wrapf ''failed to marshal trace: '' (JsonErr e)), d)
           | Inr data \<Rightarrow> (None, txn_Set d (''trace:'' @ traceID) data))
      | _ \<Rightarrow> (Some (Errorf ''trace_id is required''), d))"

text \<open>
  Decimal digits of a natural number, shared by the statistics below and by the JSON
  encoder.
\<close>

definition digit_char :: "nat \<Rightarrow> char" where
  "digit_char n = ''0123456789'' ! n"

fun show_nat :: "nat \<Rightarrow> string" where
  "show_nat n = (if n < 10 then [digit_char n] else show_nat (n div 10) @ [digit_char (n mod 10)])"

declare show_nat.simps [simp del]

text \<open>
  \<^verbatim>\<open>fmt.Sprintf("%.2f MB", float64(storageSize) / (1024 * 1024))\<close>, for a size that is not
  negative. The conversion of an \<^verbatim>\<open>int64\<close> to \<^verbatim>\<open>float64\<close> keeps 53 significant bits,
  rounding to the nearest value, a tie to the even one (it is exact below \<open>2 ^ 53\<close>); the
  division by a power of two is exact; \<^verbatim>\<open>%.2f\<close> rounds the exact quotient to the nearest
  hundredth, a tie to the even digit.
\<close>

definition round_half_even :: "int \<Rightarrow> int \<Rightarrow> int" where
  "round_half_even a b =
     (let q = a div b; r = a mod b in
      if 2 * r < b then q else if b < 2 * r then q + 1 else if even q then q else q + 1)"

fun bitlen :: "nat \<Rightarrow> nat" where
  "bitlen n = (if n = 0 then 0 else Suc (bitlen (n div 2)))"

declare bitlen.simps [simp del]

definition float64_of_int :: "int \<Rightarrow> int" where
  "float64_of_int n = (let e = bitlen (nat n) - 53 in round_half_even n (2 ^ e) * 2 ^ e)"

definition storageSizeStr :: "int \<Rightarrow> string" where
  "storageSizeStr storageSize =
     (let h = nat (round_half_even (float64_of_int storageSize * 100) (1024 * 1024)) in
      show_nat (h div 100) @ ''.'' @ [digit_char (h mod 100 div 10), digit_char (h mod 10)] @ '' MB'')"

text \<open>
  \<^verbatim>\<open>GetStats\<close>: every record of the namespace counts as a trace before it is decoded;
  its spans count when \<^verbatim>\<open>trace["spans"]\<close> is a \<^verbatim>\<open>[]interface{}\<close>; a record that fails to
  decode ends the scan with the error. The counters cannot overflow on a database that
  fits on a disk, so they are unbounded integers.
\<close>

definition span_count :: "gomap \<Rightarrow> int" where
  "span_count trace = (case index trace ''spans'' of Some (GSlice spans) \<Rightarrow> int (length spans) | _ \<Rightarrow> 0)"

fun GetStats_loop ::
  "unmarshal \<Rightarrow> (bytes \<times> bytes) list \<Rightarrow> int \<Rightarrow> int \<Rightarrow> int \<Rightarrow> error + (int \<times> int \<times> int)" where
  "GetStats_loop U [] totalTraces totalSpans storageSize = Inr (totalTraces, totalSpans, storageSize)"
| "GetStats_loop U ((key, val) # rest) totalTraces totalSpans storageSize =
     (if take 6 key = ''trace:'' then
        (case U val of
           Inl e \<Rightarrow> Inl (JsonErr e)
         | Inr trace \<Rightarrow>
             GetStats_loop U rest (totalTraces + 1) (totalSpans + span_count trace)
               (storageSize + int (length val)))
      else GetStats_loop U rest totalTraces totalSpans storageSize)"

definition GetStats :: "unmarshal \<Rightarrow> db \<Rightarrow> error + gomap" where
  "GetStats U d =
     (case GetStats_loop U (iterator_items ''trace:'' d) 0 0 0 of
        Inl err \<Rightarrow> Inl (Wrapf ''failed to get stats: '' err)
      | Inr (totalTraces, totalSpans, storageSize) \<Rightarrow>
          Inr (Some [(''storage_size'', GString (storageSizeStr storageSize)),
                     (''total_spans'', GInt totalSpans),
                     (''total_traces'', GInt totalTraces)]))"

text \<open>
  A sequence of \<^verbatim>\<open>StoreTrace\<close> calls, each of which succeeds: the database they leave.
\<close>

fun store_all :: "marshal \<Rightarrow> db \<Rightarrow> gomap list \<Rightarrow> db option" where
  "store_all M d [] = Some d"
| "store_all M d (t # ts) =
     (case StoreTrace M d t of (None, d') \<Rightarrow> store_all M d' ts | (Some e, d') \<Rightarrow> None)"

text \<open>The number of entries of a trace's span sequence, of either slice type.\<close>

definition spans_len :: "gomap \<Rightarrow> int" where
  "spans_len trace =
     (case index trace ''spans'' of
        Some (GSlice spans) \<Rightarrow> int (length spans)
      | Some (GMapSlice spans) \<Rightarrow> int (length spans)
      | _ \<Rightarrow> 0)"

text \<open>
  What a decoded trace \<open>t'\<close> must share with the trace \<open>t\<close> it was encoded from for the
  statistics to be exact: its \<^verbatim>\<open>spans\<close> field is a \<^verbatim>\<open>[]interface{}\<close> with as many entries
  as the span sequence of \<open>t\<close>, or \<open>t\<close> has no spans and the \<^verbatim>\<open>spans\<close> field of \<open>t'\<close> is not a
  \<^verbatim>\<open>[]interface{}\<close>. This is a property of the encoder and the decoder alone.
\<close>

definition keeps_spans :: "gomap \<Rightarrow> gomap \<Rightarrow> bool" where
  "keeps_spans t t' =
     ((\<exists>xs. index t' ''spans'' = Some (GSlice xs) \<and> int (length xs) = spans_len t)
      \<or> (spans_len t = 0 \<and> (\<forall>xs. index t' ''spans'' \<noteq> Some (GSlice xs))))"

section \<open>A model of \<^verbatim>\<open>encoding/json\<close>\<close>

text \<open>
  \<open>json_Marshal\<close> and \<open>json_Unmarshal\<close> model \<^verbatim>\<open>json.Marshal\<close> and \<^verbatim>\<open>json.Unmarshal\<close> into
  a \<^verbatim>\<open>map[string]interface{}\<close> on a fragment of JSON: compact text as \<^verbatim>\<open>Marshal\<close> writes
  it (no white space, object keys in ascending order), strings of printable ASCII
  characters that \<^verbatim>\<open>Marshal\<close> writes unescaped (\<open>plain_char\<close>), and integral numbers of
  magnitude up to \<open>2 ^ 53\<close>, which a \<^verbatim>\<open>float64\<close> holds exactly. The decoder stores what the
  package documents: \<^verbatim>\<open>nil\<close> for null, \<^verbatim>\<open>bool\<close>, \<^verbatim>\<open>float64\<close> for every number, \<^verbatim>\<open>string\<close>,
  \<^verbatim>\<open>[]interface{}\<close> for every array and \<^verbatim>\<open>map[string]interface{}\<close> for every object, the
  last of two equal keys winning. A text outside the fragment is rejected, so the model is
  used only on texts of the fragment and on texts that are not JSON at all.
\<close>

definition show_int :: "int \<Rightarrow> string" where
  "show_int i = (if i < 0 then CHR ''-'' # show_nat (nat (- i)) else show_nat (nat i))"

definition dquote :: char where "dquote = CHR 0x22"

text \<open>
  Inside a string the decoder takes a printable ASCII character other than the quote and
  the backslash as it stands (\<open>raw_char\<close>); of these the encoder escapes \<^verbatim>\<open><\<close>, \<^verbatim>\<open>>\<close> and
  \<^verbatim>\<open>&\<close> and writes the others as they stand (\<open>plain_char\<close>).
\<close>

definition raw_char :: "char \<Rightarrow> bool" where
  "raw_char c = (32 \<le> (of_char c :: nat) \<and> (of_char c :: nat) \<le> 126 \<and>
     c \<noteq> dquote \<and> c \<noteq> CHR 0x5C)"


text \<open>
  The encoder: \<open>render\<close> writes a value of the fragment as \<^verbatim>\<open>Marshal\<close> does, and
  \<^verbatim>\<open>Marshal\<close> fails on a value that JSON cannot represent (\<open>encodable\<close>). A nil map is
  written \<^verbatim>\<open>null\<close>.
\<close>

definition quote :: "string \<Rightarrow> string" where
  "quote s = dquote # s @ [dquote]"

fun commas :: "string list \<Rightarrow> string" where
  "commas [] = []"
| "commas [x] = x"
| "commas (x # y # zs) = x @ CHR '','' # commas (y # zs)"

fun render :: "gval \<Rightarrow> string" where
  "render GNil = ''null''"
| "render (GBool b) = (if b then ''true'' else ''false'')"
| "render (GInt n) = show_int n"
| "render (GFloat64 n) = show_int n"
| "render (GString s) = quote s"
| "render (GSlice vs) = CHR ''['' # commas (map render vs) @ '']''"
| "render (GMapSlice ms) =
     CHR ''['' # commas (map (\<lambda>m. CHR ''{'' # commas (map (\<lambda>kv. quote (fst kv) @ CHR '':'' # render (snd kv)) m) @ ''}'') ms) @ '']''"
| "render (GMap m) = CHR ''{'' # commas (map (\<lambda>kv. quote (fst kv) @ CHR '':'' # render (snd kv)) m) @ ''}''"
| "render GChan = []"

fun encodable :: "gval \<Rightarrow> bool" where
  "encodable (GSlice vs) = (\<forall>v \<in> set vs. encodable v)"
| "encodable (GMapSlice ms) = (\<forall>m \<in> set ms. \<forall>kv \<in> set m. encodable (snd kv))"
| "encodable (GMap m) = (\<forall>kv \<in> set m. encodable (snd kv))"
| "encodable GChan = False"
| "encodable _ = True"

definition json_Marshal :: "gomap \<Rightarrow> json_error + bytes" where
  "json_Marshal t =
     (case t of
        None \<Rightarrow> Inr ''null''
      | Some m \<Rightarrow> if encodable (GMap m) then Inr (render (GMap m)) else Inl UnsupportedTypeError)"

text \<open>
  The decoder: a recursive descent on the text, with the length of the text as fuel (each
  level of nesting takes two characters and two units of fuel). A number is an integer
  without a leading zero; a fraction or an exponent is outside the fragment. A text that
  is valid but is neither an object nor null cannot be stored in a map
  (\<open>UnmarshalTypeError\<close>); null leaves the map nil.
\<close>

definition is_digit :: "char \<Rightarrow> bool" where
  "is_digit c = (48 \<le> (of_char c :: nat) \<and> (of_char c :: nat) \<le> 57)"

definition digit_val :: "char \<Rightarrow> int" where
  "digit_val c = int (of_char c) - 48"

definition read_nat :: "string \<Rightarrow> int" where
  "read_nat ds = foldl (\<lambda>a c. 10 * a + digit_val c) 0 ds"

definition parse_nat :: "string \<Rightarrow> (int \<times> string) option" where
  "parse_nat cs =
     (let ds = takeWhile is_digit cs; r = dropWhile is_digit cs in
      if ds = [] \<or> (length ds > 1 \<and> hd ds = CHR ''0'') then None
      else if r \<noteq> [] \<and> hd r \<in> set ''.eE'' then None
      else if read_nat ds > 2 ^ 53 then None
      else Some (read_nat ds, r))"

fun parse_string :: "string \<Rightarrow> (string \<times> string) option" where
  "parse_string [] = None"
| "parse_string (c # cs) =
     (if c = dquote then Some ([], cs)
      else if raw_char c then
        (case parse_string cs of None \<Rightarrow> None | Some (s, r) \<Rightarrow> Some (c # s, r))
      else None)"

definition strip :: "string \<Rightarrow> string \<Rightarrow> string option" where
  "strip p cs = (if take (length p) cs = p then Some (drop (length p) cs) else None)"

fun parse_value :: "nat \<Rightarrow> string \<Rightarrow> (gval \<times> string) option"
and parse_elems :: "nat \<Rightarrow> string \<Rightarrow> (gval list \<times> string) option"
and parse_members :: "nat \<Rightarrow> string \<Rightarrow> ((string \<times> gval) list \<times> string) option"
where
  "parse_value 0 cs = None"
| "parse_value (Suc n) [] = None"
| "parse_value (Suc n) (c # cs) =
     (if c = CHR ''n'' then map_option (Pair GNil) (strip ''ull'' cs)
      else if c = CHR ''t'' then map_option (Pair (GBool True)) (strip ''rue'' cs)
      else if c = CHR ''f'' then map_option (Pair (GBool False)) (strip ''alse'' cs)
      else if c = dquote then
        (case parse_string cs of None \<Rightarrow> None | Some (s, r) \<Rightarrow> Some (GString s, r))
      else if c = CHR ''['' then
        (case cs of
           [] \<Rightarrow> None
         | c' # cs' \<Rightarrow>
             if c' = CHR '']'' then Some (GSlice [], cs')
             else (case parse_elems n cs of None \<Rightarrow> None | Some (vs, r) \<Rightarrow> Some (GSlice vs, r)))
      else if c = CHR ''{'' then
        (case cs of
           [] \<Rightarrow> None
         | c' # cs' \<Rightarrow>
             if c' = CHR ''}'' then Some (GMap [], cs')
             else (case parse_members n cs of
                     None \<Rightarrow> None
                   | Some (kvs, r) \<Rightarrow> Some (GMap (foldl (\<lambda>m kv. ordered_put m (fst kv) (snd kv)) [] kvs), r)))
      else if c = CHR ''-'' then
        (case parse_nat cs of None \<Rightarrow> None | Some (k, r) \<Rightarrow> Some (GFloat64 (- k), r))
      else
        (case parse_nat (c # cs) of None \<Rightarrow> None | Some (k, r) \<Rightarrow> Some (GFloat64 k, r)))"
| "parse_elems 0 cs = None"
| "parse_elems (Suc n) cs =
     (case parse_value n cs of
        None \<Rightarrow> None
      | Some (v, r) \<Rightarrow>
          (case r of
             [] \<Rightarrow> None
           | c # r' \<Rightarrow>
               if c = CHR '']'' then Some ([v], r')
               else if c = CHR '','' then
                 (case parse_elems n r' of None \<Rightarrow> None | Some (vs, r'') \<Rightarrow> Some (v # vs, r''))
               else None))"
| "parse_members 0 cs = None"
| "parse_members (Suc n) cs =
     (case cs of
        [] \<Rightarrow> None
      | q # cs1 \<Rightarrow>
          if q \<noteq> dquote then None
          else (case parse_string cs1 of
                  None \<Rightarrow> None
                | Some (k, r1) \<Rightarrow>
                    (case r1 of
                       [] \<Rightarrow> None
                     | c1 # r2 \<Rightarrow>
                         if c1 \<noteq> CHR '':'' then None
                         else (case parse_value n r2 of
                                 None \<Rightarrow> None
                               | Some (v, r3) \<Rightarrow>
                                   (case r3 of
                                      [] \<Rightarrow> None
                                    | c # r4 \<Rightarrow>
                                        if c = CHR ''}'' then Some ([(k, v)], r4)
                                        else if c = CHR '','' then
                                          (case parse_members n r4 of
                                             None \<Rightarrow> None
                                           | Some (kvs, r5) \<Rightarrow> Some ((k, v) # kvs, r5))
                                        else None)))))"

definition json_Unmarshal :: "bytes \<Rightarrow> json_error + gomap" where
  "json_Unmarshal b =
     (case parse_value (length b) b of
        Some (GNil, []) \<Rightarrow> Inr None
      | Some (GMap m, []) \<Rightarrow> Inr (Some m)
      | Some (_, []) \<Rightarrow> Inl UnmarshalTypeError
      | _ \<Rightarrow> Inl SyntaxError)"





section \<open>Lemmas on the JSON model\<close>



























section \<open>Lemmas on the store\<close>

lemma iterator_items_prefix:
  "kv \<in> set (iterator_items ''trace:'' d) \<Longrightarrow> take 6 (fst kv) = ''trace:''"
  by (simp add: iterator_items_def has_prefix_def eval_nat_numeral)

lemma GetTraces_loop_limit_reached:
  "limit \<le> count \<Longrightarrow> GetTraces_loop U limit items traces count = Inr traces"
  by (cases items) auto

lemma GetTraces_loop_decoded:
  assumes "\<forall>kv \<in> set items. take 6 (fst kv) = ''trace:''"
    and "map (\<lambda>kv. U (snd kv)) items = map Inr ts"
  shows "GetTraces_loop U limit items traces count = Inr (traces @ take (nat (limit - count)) ts)"
  using assms
proof (induction items arbitrary: ts traces count)
  case Nil
  then show ?case by simp
next
  case (Cons kv items)
  obtain k v where kv: "kv = (k, v)" by (cases kv)
  from Cons.prems(2) obtain t ts' where ts: "ts = t # ts'" "U v = Inr t"
    "map (\<lambda>kv. U (snd kv)) items = map Inr ts'"
    using kv by (cases ts) auto
  show ?case
  proof (cases "count < limit")
    case True
    then have "nat (limit - count) = Suc (nat (limit - (count + 1)))" by arith
    then have "take (nat (limit - count)) (t # ts') = t # take (nat (limit - (count + 1))) ts'"
      by simp
    then show ?thesis
      using True Cons.IH [OF _ ts(3), of "traces @ [t]" "count + 1"] Cons.prems(1) kv ts(1,2)
      by simp
  next
    case False
    then show ?thesis using kv by simp
  qed
qed

lemma GetTraces_loop_abort:
  assumes "\<forall>kv \<in> set pre. take 6 (fst kv) = ''trace:''" and "take 6 k = ''trace:''"
    and "map (\<lambda>kv. U (snd kv)) pre = map Inr ts" and "U v = Inl e"
    and "count + int (length pre) < limit"
  shows "GetTraces_loop U limit (pre @ (k, v) # post) traces count
           = Inl (Wrapf ''failed to unmarshal trace: '' (JsonErr e))"
  using assms
proof (induction pre arbitrary: ts traces count)
  case Nil
  then show ?case by simp
next
  case (Cons kv pre)
  obtain k' v' where kv: "kv = (k', v')" by (cases kv)
  from Cons.prems(3) obtain t ts' where ts: "ts = t # ts'" "U v' = Inr t"
    "map (\<lambda>kv. U (snd kv)) pre = map Inr ts'"
    using kv by (cases ts) auto
  have "GetTraces_loop U limit (pre @ (k, v) # post) (traces @ [t]) (count + 1)
          = Inl (Wrapf ''failed to unmarshal trace: '' (JsonErr e))"
    using Cons.IH [OF _ Cons.prems(2) ts(3) Cons.prems(4), of "count + 1" "traces @ [t]"]
      Cons.prems(1,5) by simp
  then show ?case using Cons.prems(1,5) kv ts(2) by simp
qed

lemma GetTraces_loop_bound:
  "GetTraces_loop U limit items traces count = Inr r \<Longrightarrow>
   length r \<le> length traces + nat (limit - count)"
proof (induction items arbitrary: traces count)
  case Nil
  then show ?case by simp
next
  case (Cons kv items)
  obtain k v where kv: "kv = (k, v)" by (cases kv)
  show ?case
  proof (cases "count < limit")
    case False
    then show ?thesis using Cons.prems kv by simp
  next
    case True
    show ?thesis
    proof (cases "take 6 k = ''trace:''")
      case False
      then show ?thesis using Cons.IH [of traces count] Cons.prems kv True by simp
    next
      case pre: True
      show ?thesis
      proof (cases "U v")
        case (Inl e)
        then show ?thesis using Cons.prems kv True pre by simp
      next
        case (Inr t)
        then have "GetTraces_loop U limit items (traces @ [t]) (count + 1) = Inr r"
          using Cons.prems kv True pre by simp
        from Cons.IH [OF this] show ?thesis using True by simp
      qed
    qed
  qed
qed

lemma GetStats_loop_decoded:
  assumes "\<forall>kv \<in> set items. take 6 (fst kv) = ''trace:''"
    and "map (\<lambda>kv. U (snd kv)) items = map Inr ts"
  shows "GetStats_loop U items tt tsp sz =
           Inr (tt + int (length items), tsp + sum_list (map span_count ts),
                sz + sum_list (map (\<lambda>kv. int (length (snd kv))) items))"
  using assms
proof (induction items arbitrary: ts tt tsp sz)
  case Nil
  then show ?case by simp
next
  case (Cons kv items)
  obtain k v where kv: "kv = (k, v)" by (cases kv)
  from Cons.prems(2) obtain t ts' where ts: "ts = t # ts'" "U v = Inr t"
    "map (\<lambda>kv. U (snd kv)) items = map Inr ts'"
    using kv by (cases ts) auto
  show ?case
    using Cons.IH [OF _ ts(3), of "tt + 1" "tsp + span_count t" "sz + int (length v)"]
      Cons.prems(1) kv ts(1,2)
    by (simp add: algebra_simps)
qed

lemma map_of_ordered_put: "map_of (ordered_put d k v) = (map_of d)(k \<mapsto> v)"
  by (induction d) (auto simp: fun_eq_iff)

lemma keys_ordered_put: "fst ` set (ordered_put d k v) = insert k (fst ` set d)"
proof (induction d)
  case Nil
  show ?case by simp
next
  case (Cons kv d)
  obtain k' v' where kv: "kv = (k', v')" by (cases kv)
  consider "k < k'" | "k = k'" | "\<not> k < k'" "k \<noteq> k'" by blast
  then show ?case
  proof cases
    case 1
    then show ?thesis using kv by simp
  next
    case 2
    then show ?thesis using kv by simp
  next
    case 3
    then have "fst ` set (ordered_put (kv # d) k v) = insert k' (fst ` set (ordered_put d k v))"
      using kv by simp
    then show ?thesis using Cons.IH kv by (simp add: insert_commute)
  qed
qed

lemma sorted_ordered_put:
  "sorted_wrt (<) (map fst d) \<Longrightarrow> sorted_wrt (<) (map fst (ordered_put d k v))"
proof (induction d)
  case Nil
  then show ?case by simp
next
  case (Cons kv d)
  obtain k' v' where kv: "kv = (k', v')" by (cases kv)
  show ?case using Cons kv keys_ordered_put [of d k v]
    by auto
qed

lemma ordered_put_twice: "ordered_put (ordered_put d k v1) k v2 = ordered_put d k v2"
  by (induction d) auto

lemma count_ordered_put:
  "sorted_wrt (<) (map fst d) \<Longrightarrow> length (filter (\<lambda>kv. fst kv = k) (ordered_put d k v)) = 1"
proof (induction d)
  case Nil
  then show ?case by simp
next
  case (Cons kv d)
  obtain k' v' where kv: "kv = (k', v')" by (cases kv)
  have gt: "\<forall>x \<in> set d. k' < fst x" using Cons.prems kv by auto
  show ?case
  proof (cases "k \<le> k'")
    case True
    then have "filter (\<lambda>kv. fst kv = k) d = []" using gt by (auto simp: filter_empty_conv)
    then show ?thesis using kv True by auto
  next
    case False
    then show ?thesis using Cons kv by auto
  qed
qed

lemma txn_Get_Set: "txn_Get (txn_Set d k v) k = Some v"
  by (simp add: txn_Get_def txn_Set_def map_of_ordered_put)

text \<open>The order of the keys is an invariant of the store: every operation keeps it.\<close>

lemma db_ok_empty: "db_ok []"
  by (simp add: db_ok_def)

lemma db_ok_StoreTrace: "db_ok d \<Longrightarrow> db_ok (snd (StoreTrace M d t))"
  by (auto simp: StoreTrace_def db_ok_def txn_Set_def sorted_ordered_put
      split: option.splits gval.splits sum.splits)

lemma set_ordered_put: "set (ordered_put d k v) \<subseteq> insert (k, v) (set d)"
  by (induction d) (auto split: if_splits)

lemma sum_list_ordered_put:
  fixes f :: "'k::linorder \<times> 'v \<Rightarrow> int"
  shows "k \<notin> fst ` set d \<Longrightarrow> sum_list (map f (ordered_put d k v)) = f (k, v) + sum_list (map f d)"
  by (induction d) auto

lemma length_ordered_put:
  "k \<notin> fst ` set d \<Longrightarrow> length (ordered_put d k v) = Suc (length d)"
  by (induction d) auto

lemma keeps_spans_span_count: "keeps_spans t t' \<Longrightarrow> span_count t' = spans_len t"
  by (auto simp: keeps_spans_def span_count_def split: option.splits gval.splits)

lemma store_all_totals:
  assumes "store_all M d ts = Some d'"
    and "\<forall>kv \<in> set d. take 6 (fst kv) = ''trace:'' \<and> (\<exists>t. U (snd kv) = Inr t)"
    and "distinct (map (\<lambda>t. index t ''trace_id'') ts)"
    and "\<forall>t \<in> set ts. \<forall>s. index t ''trace_id'' = Some (GString s) \<longrightarrow> ''trace:'' @ s \<notin> fst ` set d"
    and "\<forall>t \<in> set ts. \<forall>b. M t = Inr b \<longrightarrow> (\<exists>t'. U b = Inr t' \<and> keeps_spans t t')"
  shows "(\<forall>kv \<in> set d'. take 6 (fst kv) = ''trace:'' \<and> (\<exists>t. U (snd kv) = Inr t))
         \<and> length d' = length d + length ts
         \<and> sum_list (map (\<lambda>kv. span_count (projr (U (snd kv)))) d')
           = sum_list (map (\<lambda>kv. span_count (projr (U (snd kv)))) d) + sum_list (map spans_len ts)"
  using assms
proof (induction ts arbitrary: d)
  case Nil
  then show ?case by simp
next
  case (Cons t ts)
  let ?g = "\<lambda>kv. span_count (projr (U (snd kv)))"
  from Cons.prems(1) obtain d1 where st: "StoreTrace M d t = (None, d1)"
    and rest: "store_all M d1 ts = Some d'"
    by (auto split: prod.splits option.splits)
  from st obtain s b where s: "index t ''trace_id'' = Some (GString s)" and b: "M t = Inr b"
    and d1: "d1 = ordered_put d (''trace:'' @ s) b"
    by (auto simp: StoreTrace_def txn_Set_def split: option.splits gval.splits sum.splits)
  from Cons.prems(5) b obtain t' where t'0: "U b = Inr t'" "keeps_spans t t'"
    by auto
  then have t': "U b = Inr t'" "span_count t' = spans_len t"
    by (simp_all add: keeps_spans_span_count)
  have fresh: "''trace:'' @ s \<notin> fst ` set d" using Cons.prems(4) s by simp
  have inv1: "\<forall>kv \<in> set d1. take 6 (fst kv) = ''trace:'' \<and> (\<exists>t. U (snd kv) = Inr t)"
  proof
    fix kv assume "kv \<in> set d1"
    then have "kv = (''trace:'' @ s, b) \<or> kv \<in> set d"
      using set_ordered_put [of d "''trace:'' @ s" b] d1 by auto
    then show "take 6 (fst kv) = ''trace:'' \<and> (\<exists>t. U (snd kv) = Inr t)"
      using Cons.prems(2) t'(1) by auto
  qed
  have dist: "distinct (map (\<lambda>t. index t ''trace_id'') ts)" using Cons.prems(3) by simp
  have fresh1: "\<forall>u \<in> set ts. \<forall>s'. index u ''trace_id'' = Some (GString s') \<longrightarrow>
                  ''trace:'' @ s' \<notin> fst ` set d1"
  proof (intro ballI allI impI)
    fix u s' assume u: "u \<in> set ts" and s': "index u ''trace_id'' = Some (GString s')"
    have "index t ''trace_id'' \<notin> (\<lambda>t. index t ''trace_id'') ` set ts"
      using Cons.prems(3) by simp
    moreover have "index u ''trace_id'' \<in> (\<lambda>t. index t ''trace_id'') ` set ts"
      using u by (rule imageI)
    ultimately have "index u ''trace_id'' \<noteq> index t ''trace_id''" by metis
    then have "s' \<noteq> s" using s s' by auto
    moreover have "''trace:'' @ s' \<notin> fst ` set d" using Cons.prems(4) u s' by simp
    ultimately show "''trace:'' @ s' \<notin> fst ` set d1"
      using keys_ordered_put [of d "''trace:'' @ s" b] d1 by simp
  qed
  have codec: "\<forall>t \<in> set ts. \<forall>b. M t = Inr b \<longrightarrow> (\<exists>t'. U b = Inr t' \<and> keeps_spans t t')"
    using Cons.prems(5) by simp
  note IH = Cons.IH [OF rest inv1 dist fresh1 codec]
  have len: "length d1 = Suc (length d)" using fresh d1 by (simp add: length_ordered_put)
  have "sum_list (map ?g d1) = ?g (''trace:'' @ s, b) + sum_list (map ?g d)"
    using fresh d1 sum_list_ordered_put [of "''trace:'' @ s" d ?g b] by simp
  then have sm: "sum_list (map ?g d1) = spans_len t + sum_list (map ?g d)" using t' by simp
  from IH len sm show ?case by simp
qed


section \<open>The claims\<close>

text \<open>
  Claim C1, as the code has it: a record whose bytes fail to decode is not skipped. When the
  scan reaches it (fewer than \<open>limit\<close> records come before it in key order, all of them
  decoding), \<^verbatim>\<open>GetTraces\<close> returns the wrapped decoding error and no trace at all.
\<close>

theorem GetTraces_corrupt_record_aborts:
  assumes "iterator_items ''trace:'' d = pre @ (k, v) # post"
    and "map (\<lambda>kv. U (snd kv)) pre = map Inr ts"
    and "U v = Inl e"
    and "int (length pre) < limit"
  shows "GetTraces U d limit =
           Inl (Wrapf ''failed to get traces: '' (Wrapf ''failed to unmarshal trace: '' (JsonErr e)))"
proof -
  have all: "\<forall>kv \<in> set (pre @ (k, v) # post). take 6 (fst kv) = ''trace:''"
    using iterator_items_prefix [of _ d] assms(1) by simp
  then have "GetTraces_loop U limit (pre @ (k, v) # post) [] 0
               = Inl (Wrapf ''failed to unmarshal trace: '' (JsonErr e))"
    using GetTraces_loop_abort [of pre k U ts v e 0 limit post "[]"] assms(2,3,4) by simp
  then show ?thesis by (simp add: GetTraces_def assms(1))
qed

theorem GetTraces_corrupt_record_aborts_witness:
  \<open>iterator_items ''trace:''
      [(''trace:a'', ''{"spans":[],"trace_id":"a"}''), (''trace:b'', ''{"trace_id":''),
       (''trace:c'', ''{"spans":[{}],"trace_id":"c"}'')]
     = [(''trace:a'', ''{"spans":[],"trace_id":"a"}'')] @ (''trace:b'', ''{"trace_id":'')
         # [(''trace:c'', ''{"spans":[{}],"trace_id":"c"}'')]
   \<and> map (\<lambda>kv. json_Unmarshal (snd kv)) [(''trace:a'', ''{"spans":[],"trace_id":"a"}'')]
     = map Inr [Some [(''spans'', GSlice []), (''trace_id'', GString ''a'')]]
   \<and> json_Unmarshal ''{"trace_id":'' = Inl SyntaxError
   \<and> int (length [(''trace:a'', ''{"spans":[],"trace_id":"a"}'')]) < 10
   \<and> GetTraces json_Unmarshal
        [(''trace:a'', ''{"spans":[],"trace_id":"a"}''), (''trace:b'', ''{"trace_id":''),
         (''trace:c'', ''{"spans":[{}],"trace_id":"c"}'')] 10
     = Inl (Wrapf ''failed to get traces: ''
             (Wrapf ''failed to unmarshal trace: '' (JsonErr SyntaxError)))\<close>
proof -
  let ?a = \<open>(''trace:a'', ''{"spans":[],"trace_id":"a"}'')\<close>
  let ?b = \<open>(''trace:b'', ''{"trace_id":'')\<close>
  let ?c = \<open>(''trace:c'', ''{"spans":[{}],"trace_id":"c"}'')\<close>
  have h1: "iterator_items ''trace:'' [?a, ?b, ?c] = [?a] @ ?b # [?c]" by code_simp
  have h2: "map (\<lambda>kv. json_Unmarshal (snd kv)) [?a]
            = map Inr [Some [(''spans'', GSlice []), (''trace_id'', GString ''a'')]]"
    by code_simp
  have h3: \<open>json_Unmarshal ''{"trace_id":'' = Inl SyntaxError\<close> by code_simp
  have h4: "int (length [?a]) < 10" by simp
  from GetTraces_corrupt_record_aborts [OF h1 h2 h3 h4] h1 h2 h3 h4 show ?thesis by blast
qed

theorem GetTraces_corrupt_record_counterexample:
  \<open>json_Unmarshal ''{"spans":[],"trace_id":"a"}''
     = Inr (Some [(''spans'', GSlice []), (''trace_id'', GString ''a'')])
   \<and> json_Unmarshal ''{"trace_id":'' = Inl SyntaxError
   \<and> json_Unmarshal ''{"spans":[{}],"trace_id":"c"}''
     = Inr (Some [(''spans'', GSlice [GMap []]), (''trace_id'', GString ''c'')])
   \<and> GetTraces json_Unmarshal
        [(''trace:a'', ''{"spans":[],"trace_id":"a"}''), (''trace:b'', ''{"trace_id":''),
         (''trace:c'', ''{"spans":[{}],"trace_id":"c"}'')] 10
     \<noteq> Inr [Some [(''spans'', GSlice []), (''trace_id'', GString ''a'')],
             Some [(''spans'', GSlice [GMap []]), (''trace_id'', GString ''c'')]]
   \<and> GetTraces json_Unmarshal
        [(''trace:a'', ''{"spans":[],"trace_id":"a"}''), (''trace:b'', ''{"trace_id":''),
         (''trace:c'', ''{"spans":[{}],"trace_id":"c"}'')] 10
     = Inl (Wrapf ''failed to get traces: ''
             (Wrapf ''failed to unmarshal trace: '' (JsonErr SyntaxError)))\<close>
  by code_simp

text \<open>
  Claim C2, as the code has it: \<^verbatim>\<open>GetTraces\<close> does not validate its limit. With a limit
  of zero or less the loop body never runs, and the call succeeds with the empty list.
\<close>

theorem GetTraces_nonpositive_limit:
  "limit \<le> 0 \<Longrightarrow> GetTraces U d limit = Inr []"
  by (simp add: GetTraces_def GetTraces_loop_limit_reached)

theorem GetTraces_nonpositive_limit_witness:
  \<open>(- 3 :: int) \<le> 0 \<and>
   GetTraces json_Unmarshal [(''trace:a'', ''{"trace_id":''), (''trace:b'', ''{"trace_id":"b"}'')] (- 3)
     = Inr []\<close>
  using GetTraces_nonpositive_limit [of "- 3" json_Unmarshal
      \<open>[(''trace:a'', ''{"trace_id":''), (''trace:b'', ''{"trace_id":"b"}'')]\<close>]
  by simp

theorem GetTraces_nonpositive_limit_counterexample:
  \<open>GetTraces json_Unmarshal [(''trace:a'', ''{"spans":[],"trace_id":"a"}'')] 0 = Inr []\<close>
  by code_simp

text \<open>
  Claim C3, as the code has it: \<^verbatim>\<open>StoreTrace\<close> checks that \<^verbatim>\<open>trace_id\<close> is present and is
  a string, not that it is non-empty. Without a string \<^verbatim>\<open>trace_id\<close> it fails with
  "trace_id is required" and leaves the database as it was; with one, the empty string
  included, it writes the encoded trace under \<^verbatim>\<open>"trace:" + trace_id\<close>; and it succeeds only
  for a trace whose \<^verbatim>\<open>trace_id\<close> is a string.
\<close>

theorem StoreTrace_requires_string_id:
  "((\<forall>s. index t ''trace_id'' \<noteq> Some (GString s)) \<longrightarrow>
      StoreTrace M d t = (Some (Errorf ''trace_id is required''), d))
   \<and> (\<forall>s b. index t ''trace_id'' = Some (GString s) \<longrightarrow> M t = Inr b \<longrightarrow>
          StoreTrace M d t = (None, txn_Set d (''trace:'' @ s) b))
   \<and> (fst (StoreTrace M d t) = None \<longrightarrow> (\<exists>s. index t ''trace_id'' = Some (GString s)))"
  by (auto simp: StoreTrace_def split: option.splits gval.splits sum.splits)

theorem StoreTrace_requires_string_id_witness:
  \<open>(\<forall>s. index (Some [(''trace_id'', GInt 7)]) ''trace_id'' \<noteq> Some (GString s))
   \<and> StoreTrace json_Marshal [] (Some [(''trace_id'', GInt 7)])
     = (Some (Errorf ''trace_id is required''), [])
   \<and> index (Some [(''trace_id'', GString '''')]) ''trace_id'' = Some (GString '''')
   \<and> json_Marshal (Some [(''trace_id'', GString '''')]) = Inr ''{"trace_id":""}''
   \<and> StoreTrace json_Marshal [] (Some [(''trace_id'', GString '''')])
     = (None, txn_Set [] (''trace:'' @ '''') ''{"trace_id":""}'')
   \<and> fst (StoreTrace json_Marshal [] (Some [(''trace_id'', GString '''')])) = None
   \<and> (\<exists>s. index (Some [(''trace_id'', GString '''')]) ''trace_id'' = Some (GString s))\<close>
proof -
  have h1: "\<forall>s. index (Some [(''trace_id'', GInt 7)]) ''trace_id'' \<noteq> Some (GString s)"
    by (simp add: index_def)
  have h2: "index (Some [(''trace_id'', GString '''')]) ''trace_id'' = Some (GString '''')"
    by (simp add: index_def)
  have h3: \<open>json_Marshal (Some [(''trace_id'', GString '''')]) = Inr ''{"trace_id":""}''\<close>
    by code_simp
  from StoreTrace_requires_string_id [of "Some [(''trace_id'', GInt 7)]" json_Marshal "[]"] h1
  have a: "StoreTrace json_Marshal [] (Some [(''trace_id'', GInt 7)])
           = (Some (Errorf ''trace_id is required''), [])"
    by blast
  from StoreTrace_requires_string_id [of "Some [(''trace_id'', GString '''')]" json_Marshal "[]"] h2 h3
  have b: \<open>StoreTrace json_Marshal [] (Some [(''trace_id'', GString '''')])
           = (None, txn_Set [] (''trace:'' @ '''') ''{"trace_id":""}'')\<close>
    by blast
  from b have c: "fst (StoreTrace json_Marshal [] (Some [(''trace_id'', GString '''')])) = None"
    by simp
  from StoreTrace_requires_string_id [of "Some [(''trace_id'', GString '''')]" json_Marshal "[]"] c
  have e: "\<exists>s. index (Some [(''trace_id'', GString '''')]) ''trace_id'' = Some (GString s)"
    by blast
  from a b c e h1 h2 h3 show ?thesis by simp
qed

theorem StoreTrace_empty_id_counterexample:
  \<open>StoreTrace json_Marshal [] (Some [(''trace_id'', GString '''')])
     = (None, [(''trace:'', ''{"trace_id":""}'')])
   \<and> GetTrace json_Unmarshal [(''trace:'', ''{"trace_id":""}'')] ''''
     = Inr (Some [(''trace_id'', GString '''')])\<close>
  by code_simp

text \<open>
  Claim C4, as the code has it: when every record of the namespace decodes, \<^verbatim>\<open>GetStats\<close>
  returns the three fields \<^verbatim>\<open>total_traces\<close>, \<^verbatim>\<open>total_spans\<close> and \<^verbatim>\<open>storage_size\<close>, and
  \<^verbatim>\<open>storage_size\<close> is a string: the sum of the records' byte lengths in units of
  \<open>1024 * 1024\<close> bytes with two decimals, followed by " MB". There is no field
  \<^verbatim>\<open>storage_size_bytes\<close> and no byte count in the result. \<^verbatim>\<open>total_traces\<close> is the
  number of records and \<^verbatim>\<open>total_spans\<close> the number of spans of the decoded traces.
\<close>

theorem GetStats_result:
  assumes "map (\<lambda>kv. U (snd kv)) (iterator_items ''trace:'' d) = map Inr ts"
  shows "GetStats U d =
           Inr (Some [(''storage_size'',
                        GString (storageSizeStr
                          (sum_list (map (\<lambda>kv. int (length (snd kv))) (iterator_items ''trace:'' d))))),
                      (''total_spans'', GInt (sum_list (map span_count ts))),
                      (''total_traces'', GInt (int (length ts)))])"
proof -
  have pre: "\<forall>kv \<in> set (iterator_items ''trace:'' d). take 6 (fst kv) = ''trace:''"
    using iterator_items_prefix by blast
  have "length (iterator_items ''trace:'' d) = length ts"
    using assms by (metis length_map)
  then show ?thesis
    using GetStats_loop_decoded [OF pre assms, of 0 0 0] by (simp add: GetStats_def)
qed

theorem GetStats_result_witness:
  \<open>map (\<lambda>kv. json_Unmarshal (snd kv))
      (iterator_items ''trace:''
        [(''trace:a'', ''{"spans":[],"trace_id":"a"}''), (''trace:c'', ''{"spans":[{}],"trace_id":"c"}'')])
     = map Inr [Some [(''spans'', GSlice []), (''trace_id'', GString ''a'')],
                Some [(''spans'', GSlice [GMap []]), (''trace_id'', GString ''c'')]]
   \<and> GetStats json_Unmarshal
        [(''trace:a'', ''{"spans":[],"trace_id":"a"}''), (''trace:c'', ''{"spans":[{}],"trace_id":"c"}'')]
     = Inr (Some [(''storage_size'', GString ''0.00 MB''), (''total_spans'', GInt 1),
                  (''total_traces'', GInt 2)])\<close>
proof -
  let ?d = \<open>[(''trace:a'', ''{"spans":[],"trace_id":"a"}''), (''trace:c'', ''{"spans":[{}],"trace_id":"c"}'')]\<close>
  let ?ta = "Some [(''spans'', GSlice []), (''trace_id'', GString ''a'')]"
  let ?tc = "Some [(''spans'', GSlice [GMap []]), (''trace_id'', GString ''c'')]"
  have h: "map (\<lambda>kv. json_Unmarshal (snd kv)) (iterator_items ''trace:'' ?d) = map Inr [?ta, ?tc]"
    by code_simp
  have e1: "storageSizeStr (sum_list (map (\<lambda>kv. int (length (snd kv))) (iterator_items ''trace:'' ?d)))
            = ''0.00 MB''"
    by code_simp
  have e2: "sum_list (map span_count [?ta, ?tc]) = 1" by code_simp
  from GetStats_result [OF h] h show ?thesis unfolding e1 e2 by simp
qed

theorem GetStats_fields_counterexample:
  \<open>GetStats json_Unmarshal
      [(''trace:a'', ''{"spans":[],"trace_id":"a"}''), (''trace:c'', ''{"spans":[{}],"trace_id":"c"}'')]
     = Inr (Some [(''storage_size'', GString ''0.00 MB''), (''total_spans'', GInt 1),
                  (''total_traces'', GInt 2)])
   \<and> index (Some [(''storage_size'', GString ''0.00 MB''), (''total_spans'', GInt 1),
                   (''total_traces'', GInt 2)]) ''storage_size_bytes'' = None
   \<and> int (length ''{"spans":[],"trace_id":"a"}'') + int (length ''{"spans":[{}],"trace_id":"c"}'') = 56\<close>
  by code_simp

text \<open>
  Claim C5, as the code has it: after two successful \<^verbatim>\<open>StoreTrace\<close> calls with the same
  \<^verbatim>\<open>trace_id\<close>, the database holds exactly one record under that id's key, its bytes are
  the encoding of the second trace, the database is the one the second call alone would
  have left (nothing of the first trace remains), and \<^verbatim>\<open>GetTrace\<close> returns the decoding of
  those bytes. That is the trace of the second call exactly when decoding its encoding gives
  it back, which fails for the trace of the counterexample, whose spans are a
  \<^verbatim>\<open>[]map[string]interface{}\<close>.
\<close>

theorem StoreTrace_overwrite:
  assumes "db_ok d"
    and "index t1 ''trace_id'' = Some (GString tid)"
    and "index t2 ''trace_id'' = Some (GString tid)"
    and "StoreTrace M d t1 = (None, d1)"
    and "StoreTrace M d1 t2 = (None, d2)"
    and "M t2 = Inr b2"
  shows "length (filter (\<lambda>kv. fst kv = ''trace:'' @ tid) d2) = 1
         \<and> txn_Get d2 (''trace:'' @ tid) = Some b2
         \<and> StoreTrace M d t2 = (None, d2)
         \<and> GetTrace U d2 tid = (case U b2 of Inl e \<Rightarrow> Inl (JsonErr e) | Inr t \<Rightarrow> Inr t)
         \<and> (GetTrace U d2 tid = Inr t2) = (U b2 = Inr t2)"
proof -
  let ?k = "''trace:'' @ tid"
  obtain b1 where d1: "d1 = txn_Set d ?k b1"
    using assms(2,4) by (auto simp: StoreTrace_def split: sum.splits)
  have d2: "d2 = txn_Set d1 ?k b2"
    using assms(3,5,6) by (simp add: StoreTrace_def)
  have g: "txn_Get d2 ?k = Some b2" by (simp add: d2 txn_Get_Set)
  then have r: "GetTrace U d2 tid = (case U b2 of Inl e \<Rightarrow> Inl (JsonErr e) | Inr t \<Rightarrow> Inr t)"
    by (simp add: GetTrace_def)
  then have q: "(GetTrace U d2 tid = Inr t2) = (U b2 = Inr t2)"
    by (cases "U b2") simp_all
  have "sorted_wrt (<) (map fst d1)"
    using assms(1) by (simp add: d1 txn_Set_def db_ok_def sorted_ordered_put)
  then have c: "length (filter (\<lambda>kv. fst kv = ?k) d2) = 1"
    by (simp add: d2 txn_Set_def count_ordered_put)
  have "d2 = txn_Set d ?k b2" by (simp add: d2 d1 txn_Set_def ordered_put_twice)
  then have s: "StoreTrace M d t2 = (None, d2)" using assms(3,6) by (simp add: StoreTrace_def)
  from g r q c s show ?thesis by blast
qed

theorem StoreTrace_overwrite_witness:
  \<open>db_ok []
   \<and> index (Some [(''spans'', GSlice [GMap [], GMap []]), (''trace_id'', GString ''t1'')]) ''trace_id''
     = Some (GString ''t1'')
   \<and> index (Some [(''spans'', GSlice [GMap []]), (''trace_id'', GString ''t1'')]) ''trace_id''
     = Some (GString ''t1'')
   \<and> StoreTrace json_Marshal []
        (Some [(''spans'', GSlice [GMap [], GMap []]), (''trace_id'', GString ''t1'')])
     = (None, [(''trace:t1'', ''{"spans":[{},{}],"trace_id":"t1"}'')])
   \<and> StoreTrace json_Marshal [(''trace:t1'', ''{"spans":[{},{}],"trace_id":"t1"}'')]
        (Some [(''spans'', GSlice [GMap []]), (''trace_id'', GString ''t1'')])
     = (None, [(''trace:t1'', ''{"spans":[{}],"trace_id":"t1"}'')])
   \<and> json_Marshal (Some [(''spans'', GSlice [GMap []]), (''trace_id'', GString ''t1'')])
     = Inr ''{"spans":[{}],"trace_id":"t1"}''
   \<and> json_Unmarshal ''{"spans":[{}],"trace_id":"t1"}''
     = Inr (Some [(''spans'', GSlice [GMap []]), (''trace_id'', GString ''t1'')])
   \<and> length (filter (\<lambda>kv. fst kv = ''trace:'' @ ''t1'')
        [(''trace:t1'', ''{"spans":[{}],"trace_id":"t1"}'')]) = 1
   \<and> txn_Get [(''trace:t1'', ''{"spans":[{}],"trace_id":"t1"}'')] (''trace:'' @ ''t1'')
     = Some ''{"spans":[{}],"trace_id":"t1"}''
   \<and> GetTrace json_Unmarshal [(''trace:t1'', ''{"spans":[{}],"trace_id":"t1"}'')] ''t1''
     = Inr (Some [(''spans'', GSlice [GMap []]), (''trace_id'', GString ''t1'')])\<close>
proof -
  let ?t1 = "Some [(''spans'', GSlice [GMap [], GMap []]), (''trace_id'', GString ''t1'')]"
  let ?t2 = "Some [(''spans'', GSlice [GMap []]), (''trace_id'', GString ''t1'')]"
  let ?d1 = \<open>[(''trace:t1'', ''{"spans":[{},{}],"trace_id":"t1"}'')]\<close>
  let ?d2 = \<open>[(''trace:t1'', ''{"spans":[{}],"trace_id":"t1"}'')]\<close>
  have h1: "db_ok []" by (simp add: db_ok_def)
  have h2: "index ?t1 ''trace_id'' = Some (GString ''t1'')" by (simp add: index_def)
  have h3: "index ?t2 ''trace_id'' = Some (GString ''t1'')" by (simp add: index_def)
  have h4: "StoreTrace json_Marshal [] ?t1 = (None, ?d1)" by code_simp
  have h5: "StoreTrace json_Marshal ?d1 ?t2 = (None, ?d2)" by code_simp
  have h6: \<open>json_Marshal ?t2 = Inr ''{"spans":[{}],"trace_id":"t1"}''\<close> by code_simp
  have h7: \<open>json_Unmarshal ''{"spans":[{}],"trace_id":"t1"}'' = Inr ?t2\<close> by code_simp
  from StoreTrace_overwrite [where M = json_Marshal and U = json_Unmarshal and ?t2.0 = ?t2,
      OF h1 h2 h3 h4 h5 h6] h1 h2 h3 h4 h5 h6 h7
  show ?thesis by simp
qed

theorem StoreTrace_overwrite_counterexample:
  \<open>StoreTrace json_Marshal []
      (Some [(''spans'', GMapSlice [[], []]), (''trace_id'', GString ''t1'')])
     = (None, [(''trace:t1'', ''{"spans":[{},{}],"trace_id":"t1"}'')])
   \<and> StoreTrace json_Marshal [(''trace:t1'', ''{"spans":[{},{}],"trace_id":"t1"}'')]
        (Some [(''spans'', GMapSlice [[]]), (''trace_id'', GString ''t1'')])
     = (None, [(''trace:t1'', ''{"spans":[{}],"trace_id":"t1"}'')])
   \<and> GetTrace json_Unmarshal [(''trace:t1'', ''{"spans":[{}],"trace_id":"t1"}'')] ''t1''
     = Inr (Some [(''spans'', GSlice [GMap []]), (''trace_id'', GString ''t1'')])
   \<and> GetTrace json_Unmarshal [(''trace:t1'', ''{"spans":[{}],"trace_id":"t1"}'')] ''t1''
     \<noteq> Inr (Some [(''spans'', GMapSlice [[]]), (''trace_id'', GString ''t1'')])\<close>
  by code_simp

text \<open>
  Claim C6: after \<open>N\<close> successful \<^verbatim>\<open>StoreTrace\<close> calls on an empty database, with pairwise
  distinct ids, \<^verbatim>\<open>GetStats\<close> reports \<^verbatim>\<open>total_traces\<close> \<open>= N\<close> and \<^verbatim>\<open>total_spans\<close> equal to the
  sum of the lengths of the traces' span sequences, for every encoder and decoder that
  keep the span sequence of each trace (\<open>keeps_spans\<close>).
\<close>

theorem GetStats_after_stores:
  assumes "store_all M [] ts = Some d"
    and "distinct (map (\<lambda>t. index t ''trace_id'') ts)"
    and "\<forall>t \<in> set ts. \<forall>b. M t = Inr b \<longrightarrow> (\<exists>t'. U b = Inr t' \<and> keeps_spans t t')"
  shows "\<exists>r. GetStats U d = Inr r
           \<and> index r ''total_traces'' = Some (GInt (int (length ts)))
           \<and> index r ''total_spans'' = Some (GInt (sum_list (map spans_len ts)))"
proof -
  let ?g = "\<lambda>kv. span_count (projr (U (snd kv)))"
  from store_all_totals [OF assms(1) _ assms(2) _ assms(3)]
  have inv: "\<forall>kv \<in> set d. take 6 (fst kv) = ''trace:'' \<and> (\<exists>t. U (snd kv) = Inr t)"
    and len: "length d = length ts"
    and sm: "sum_list (map ?g d) = sum_list (map spans_len ts)"
    by simp_all
  have "\<forall>kv \<in> set d. has_prefix ''trace:'' (fst kv)"
    using inv by (simp add: has_prefix_def eval_nat_numeral)
  then have items: "iterator_items ''trace:'' d = d" by (simp add: iterator_items_def)
  have dec: "map (\<lambda>kv. U (snd kv)) (iterator_items ''trace:'' d)
             = map Inr (map (\<lambda>kv. projr (U (snd kv))) d)"
    unfolding items using inv by auto
  have pre: "\<forall>kv \<in> set (iterator_items ''trace:'' d). take 6 (fst kv) = ''trace:''"
    using iterator_items_prefix by blast
  have "sum_list (map span_count (map (\<lambda>kv. projr (U (snd kv))) d)) = sum_list (map ?g d)"
    by (simp add: comp_def)
  then show ?thesis
    using GetStats_loop_decoded [OF pre dec, of 0 0 0] items len sm
    by (simp add: GetStats_def index_def)
qed

theorem GetStats_after_stores_witness:
  \<open>store_all json_Marshal []
      [Some [(''spans'', GMapSlice [[], []]), (''trace_id'', GString ''b'')],
       Some [(''spans'', GSlice [GMap []]), (''trace_id'', GString ''a'')]]
     = Some [(''trace:a'', ''{"spans":[{}],"trace_id":"a"}''),
             (''trace:b'', ''{"spans":[{},{}],"trace_id":"b"}'')]
   \<and> distinct (map (\<lambda>t. index t ''trace_id'')
        [Some [(''spans'', GMapSlice [[], []]), (''trace_id'', GString ''b'')],
         Some [(''spans'', GSlice [GMap []]), (''trace_id'', GString ''a'')]])
   \<and> json_Marshal (Some [(''spans'', GMapSlice [[], []]), (''trace_id'', GString ''b'')])
     = Inr ''{"spans":[{},{}],"trace_id":"b"}''
   \<and> json_Unmarshal ''{"spans":[{},{}],"trace_id":"b"}''
     = Inr (Some [(''spans'', GSlice [GMap [], GMap []]), (''trace_id'', GString ''b'')])
   \<and> index (Some [(''spans'', GSlice [GMap [], GMap []]), (''trace_id'', GString ''b'')]) ''spans''
     = Some (GSlice [GMap [], GMap []])
   \<and> int (length [GMap [], GMap []])
     = spans_len (Some [(''spans'', GMapSlice [[], []]), (''trace_id'', GString ''b'')])
   \<and> json_Marshal (Some [(''spans'', GSlice [GMap []]), (''trace_id'', GString ''a'')])
     = Inr ''{"spans":[{}],"trace_id":"a"}''
   \<and> json_Unmarshal ''{"spans":[{}],"trace_id":"a"}''
     = Inr (Some [(''spans'', GSlice [GMap []]), (''trace_id'', GString ''a'')])
   \<and> index (Some [(''spans'', GSlice [GMap []]), (''trace_id'', GString ''a'')]) ''spans''
     = Some (GSlice [GMap []])
   \<and> int (length [GMap []])
     = spans_len (Some [(''spans'', GSlice [GMap []]), (''trace_id'', GString ''a'')])
   \<and> (\<exists>r. GetStats json_Unmarshal
               [(''trace:a'', ''{"spans":[{}],"trace_id":"a"}''),
                (''trace:b'', ''{"spans":[{},{}],"trace_id":"b"}'')] = Inr r
          \<and> index r ''total_traces'' = Some (GInt 2)
          \<and> index r ''total_spans'' = Some (GInt 3))\<close>
proof -
  let ?tb = "Some [(''spans'', GMapSlice [[], []]), (''trace_id'', GString ''b'')]"
  let ?ta = "Some [(''spans'', GSlice [GMap []]), (''trace_id'', GString ''a'')]"
  let ?d = \<open>[(''trace:a'', ''{"spans":[{}],"trace_id":"a"}''),
             (''trace:b'', ''{"spans":[{},{}],"trace_id":"b"}'')]\<close>
  have h1: "store_all json_Marshal [] [?tb, ?ta] = Some ?d" by code_simp
  have h2: "distinct (map (\<lambda>t. index t ''trace_id'') [?tb, ?ta])" by code_simp
  have ma: \<open>json_Marshal ?ta = Inr ''{"spans":[{}],"trace_id":"a"}''\<close> by code_simp
  have mb: \<open>json_Marshal ?tb = Inr ''{"spans":[{},{}],"trace_id":"b"}''\<close> by code_simp
  have ua: \<open>json_Unmarshal ''{"spans":[{}],"trace_id":"a"}''
            = Inr (Some [(''spans'', GSlice [GMap []]), (''trace_id'', GString ''a'')])\<close>
    by code_simp
  have ub: \<open>json_Unmarshal ''{"spans":[{},{}],"trace_id":"b"}''
            = Inr (Some [(''spans'', GSlice [GMap [], GMap []]), (''trace_id'', GString ''b'')])\<close>
    by code_simp
  have ia: "index (Some [(''spans'', GSlice [GMap []]), (''trace_id'', GString ''a'')]) ''spans''
            = Some (GSlice [GMap []])"
    by (simp add: index_def)
  have ib: "index (Some [(''spans'', GSlice [GMap [], GMap []]), (''trace_id'', GString ''b'')]) ''spans''
            = Some (GSlice [GMap [], GMap []])"
    by (simp add: index_def)
  have sa: "int (length [GMap []]) = spans_len ?ta" by (simp add: spans_len_def index_def)
  have sb: "int (length [GMap [], GMap []]) = spans_len ?tb" by (simp add: spans_len_def index_def)
  have ka: "keeps_spans ?ta (Some [(''spans'', GSlice [GMap []]), (''trace_id'', GString ''a'')])"
    unfolding keeps_spans_def using ia sa by blast
  have kb: "keeps_spans ?tb (Some [(''spans'', GSlice [GMap [], GMap []]), (''trace_id'', GString ''b'')])"
    unfolding keeps_spans_def using ib sb by blast
  have h3: "\<forall>t \<in> set [?tb, ?ta]. \<forall>b. json_Marshal t = Inr b \<longrightarrow>
              (\<exists>t'. json_Unmarshal b = Inr t' \<and> keeps_spans t t')"
    using ma mb ua ub ka kb by auto
  have e: "int (length [?tb, ?ta]) = 2" "sum_list (map spans_len [?tb, ?ta]) = 3"
    by code_simp+
  from GetStats_after_stores [where M = json_Marshal and U = json_Unmarshal, OF h1 h2 h3]
  have "\<exists>r. GetStats json_Unmarshal ?d = Inr r
          \<and> index r ''total_traces'' = Some (GInt 2) \<and> index r ''total_spans'' = Some (GInt 3)"
    unfolding e .
  with h1 h2 ma mb ua ub ia ib sa sb show ?thesis by blast
qed

text \<open>
  Claim C7, as the code has it: a successful \<^verbatim>\<open>GetTraces(limit)\<close> returns at most
  \<open>limit\<close> elements (none for a negative limit); when every record of the namespace
  decodes, it returns the first \<open>limit\<close> decoded traces in key order, hence all of them
  when \<open>limit\<close> is at least their number. On a database with a record that does not decode
  it returns an error instead of the stored traces, as the counterexample shows.
\<close>

theorem GetTraces_listing_bound:
  "(\<forall>ts. GetTraces U d limit = Inr ts \<longrightarrow> length ts \<le> nat limit)
   \<and> (\<forall>all. map (\<lambda>kv. U (snd kv)) (iterator_items ''trace:'' d) = map Inr all \<longrightarrow>
          GetTraces U d limit = Inr (take (nat limit) all)
          \<and> (int (length all) \<le> limit \<longrightarrow> GetTraces U d limit = Inr all))"
proof (intro conjI allI impI)
  fix ts assume "GetTraces U d limit = Inr ts"
  then have "GetTraces_loop U limit (iterator_items ''trace:'' d) [] 0 = Inr ts"
    by (simp add: GetTraces_def split: sum.splits)
  from GetTraces_loop_bound [OF this] show "length ts \<le> nat limit" by simp
next
  fix all assume dec: "map (\<lambda>kv. U (snd kv)) (iterator_items ''trace:'' d) = map Inr all"
  have pre: "\<forall>kv \<in> set (iterator_items ''trace:'' d). take 6 (fst kv) = ''trace:''"
    using iterator_items_prefix by blast
  show eq: "GetTraces U d limit = Inr (take (nat limit) all)"
    using GetTraces_loop_decoded [OF pre dec, of limit "[]" 0] by (simp add: GetTraces_def)
  assume "int (length all) \<le> limit"
  then show "GetTraces U d limit = Inr all" using eq by simp
qed

theorem GetTraces_listing_bound_witness:
  \<open>GetTraces json_Unmarshal
      [(''trace:a'', ''{"spans":[],"trace_id":"a"}''), (''trace:c'', ''{"spans":[{}],"trace_id":"c"}'')] 1
     = Inr [Some [(''spans'', GSlice []), (''trace_id'', GString ''a'')]]
   \<and> length [Some [(''spans'', GSlice []), (''trace_id'', GString ''a'')]] \<le> nat 1
   \<and> map (\<lambda>kv. json_Unmarshal (snd kv))
        (iterator_items ''trace:''
          [(''trace:a'', ''{"spans":[],"trace_id":"a"}''), (''trace:c'', ''{"spans":[{}],"trace_id":"c"}'')])
     = map Inr [Some [(''spans'', GSlice []), (''trace_id'', GString ''a'')],
                Some [(''spans'', GSlice [GMap []]), (''trace_id'', GString ''c'')]]
   \<and> int (length [Some [(''spans'', GSlice []), (''trace_id'', GString ''a'')],
                   Some [(''spans'', GSlice [GMap []]), (''trace_id'', GString ''c'')]]) \<le> 2
   \<and> GetTraces json_Unmarshal
        [(''trace:a'', ''{"spans":[],"trace_id":"a"}''), (''trace:c'', ''{"spans":[{}],"trace_id":"c"}'')] 2
     = Inr [Some [(''spans'', GSlice []), (''trace_id'', GString ''a'')],
            Some [(''spans'', GSlice [GMap []]), (''trace_id'', GString ''c'')]]\<close>
proof -
  let ?d = \<open>[(''trace:a'', ''{"spans":[],"trace_id":"a"}''), (''trace:c'', ''{"spans":[{}],"trace_id":"c"}'')]\<close>
  let ?ta = "Some [(''spans'', GSlice []), (''trace_id'', GString ''a'')]"
  let ?tc = "Some [(''spans'', GSlice [GMap []]), (''trace_id'', GString ''c'')]"
  have h1: "GetTraces json_Unmarshal ?d 1 = Inr [?ta]" by code_simp
  have h2: "map (\<lambda>kv. json_Unmarshal (snd kv)) (iterator_items ''trace:'' ?d) = map Inr [?ta, ?tc]"
    by code_simp
  have h3: "int (length [?ta, ?tc]) \<le> 2" by simp
  from GetTraces_listing_bound [of json_Unmarshal ?d 1] h1
  have a: "length [?ta] \<le> nat 1" by blast
  from GetTraces_listing_bound [of json_Unmarshal ?d 2] h2 h3
  have b: "GetTraces json_Unmarshal ?d 2 = Inr [?ta, ?tc]" by blast
  from a b h1 h2 h3 show ?thesis by blast
qed

theorem GetTraces_listing_counterexample:
  \<open>json_Unmarshal ''{"spans":[],"trace_id":"a"}''
     = Inr (Some [(''spans'', GSlice []), (''trace_id'', GString ''a'')])
   \<and> GetTraces json_Unmarshal
        [(''trace:a'', ''{"spans":[],"trace_id":"a"}''), (''trace:b'', ''{"trace_id":'')] 10
     \<noteq> Inr [Some [(''spans'', GSlice []), (''trace_id'', GString ''a'')]]
   \<and> GetTraces json_Unmarshal
        [(''trace:a'', ''{"spans":[],"trace_id":"a"}''), (''trace:b'', ''{"trace_id":'')] 10
     = Inl (Wrapf ''failed to get traces: ''
             (Wrapf ''failed to unmarshal trace: '' (JsonErr SyntaxError)))\<close>
  by code_simp




text \<open>
  Claim C9: \<^verbatim>\<open>GetTrace\<close> on an id with no stored record fails with the error
  "trace not found", whatever the decoder and the rest of the database.
\<close>

theorem GetTrace_missing:
  "txn_Get d (''trace:'' @ tid) = None \<Longrightarrow> GetTrace U d tid = Inl (Errorf ''trace not found'')"
  by (simp add: GetTrace_def)

theorem GetTrace_missing_witness:
  \<open>txn_Get [(''trace:a'', ''{"spans":[],"trace_id":"a"}'')] (''trace:'' @ ''nonexistent'') = None
   \<and> GetTrace json_Unmarshal [(''trace:a'', ''{"spans":[],"trace_id":"a"}'')] ''nonexistent''
     = Inl (Errorf ''trace not found'')\<close>
proof -
  have h: \<open>txn_Get [(''trace:a'', ''{"spans":[],"trace_id":"a"}'')] (''trace:'' @ ''nonexistent'') = None\<close>
    by (simp add: txn_Get_def)
  from GetTrace_missing [OF h] h show ?thesis by blast
qed

text \<open>
  Claim C10: when \<^verbatim>\<open>trace_id\<close> is absent or not a string, \<^verbatim>\<open>StoreTrace\<close> returns the error
  "trace_id is required" and the database is unchanged; and whenever \<^verbatim>\<open>StoreTrace\<close> returns
  an error, from validation or from encoding, the database is unchanged.
\<close>

theorem StoreTrace_failure_writes_nothing:
  "((\<forall>s. index t ''trace_id'' \<noteq> Some (GString s)) \<longrightarrow>
      fst (StoreTrace M d t) = Some (Errorf ''trace_id is required'')
      \<and> snd (StoreTrace M d t) = d)
   \<and> (\<forall>e. fst (StoreTrace M d t) = Some e \<longrightarrow> snd (StoreTrace M d t) = d)"
  by (auto simp: StoreTrace_def split: option.splits gval.splits sum.splits)

theorem StoreTrace_failure_writes_nothing_witness:
  \<open>(\<forall>s. index (Some [(''name'', GString ''n'')]) ''trace_id'' \<noteq> Some (GString s))
   \<and> fst (StoreTrace json_Marshal [(''trace:a'', ''{"trace_id":"a"}'')] (Some [(''name'', GString ''n'')]))
     = Some (Errorf ''trace_id is required'')
   \<and> snd (StoreTrace json_Marshal [(''trace:a'', ''{"trace_id":"a"}'')] (Some [(''name'', GString ''n'')]))
     = [(''trace:a'', ''{"trace_id":"a"}'')]
   \<and> fst (StoreTrace json_Marshal [(''trace:a'', ''{"trace_id":"a"}'')]
          (Some [(''ch'', GChan), (''trace_id'', GString ''a'')]))
     = Some (Wrapf ''failed to marshal trace: '' (JsonErr UnsupportedTypeError))
   \<and> snd (StoreTrace json_Marshal [(''trace:a'', ''{"trace_id":"a"}'')]
          (Some [(''ch'', GChan), (''trace_id'', GString ''a'')]))
     = [(''trace:a'', ''{"trace_id":"a"}'')]\<close>
proof -
  let ?d = \<open>[(''trace:a'', ''{"trace_id":"a"}'')]\<close>
  have h1: "\<forall>s. index (Some [(''name'', GString ''n'')]) ''trace_id'' \<noteq> Some (GString s)"
    by (simp add: index_def)
  have h2: "fst (StoreTrace json_Marshal ?d (Some [(''ch'', GChan), (''trace_id'', GString ''a'')]))
            = Some (Wrapf ''failed to marshal trace: '' (JsonErr UnsupportedTypeError))"
    by code_simp
  from StoreTrace_failure_writes_nothing [of "Some [(''name'', GString ''n'')]" json_Marshal ?d] h1
  have a: "fst (StoreTrace json_Marshal ?d (Some [(''name'', GString ''n'')]))
             = Some (Errorf ''trace_id is required'')
           \<and> snd (StoreTrace json_Marshal ?d (Some [(''name'', GString ''n'')])) = ?d"
    by blast
  from StoreTrace_failure_writes_nothing
         [of "Some [(''ch'', GChan), (''trace_id'', GString ''a'')]" json_Marshal ?d] h2
  have b: "snd (StoreTrace json_Marshal ?d (Some [(''ch'', GChan), (''trace_id'', GString ''a'')])) = ?d"
    by blast
  from a b h1 h2 show ?thesis by simp
qed

end
